theory Spec2Isabelle
  imports Complex_Main "HOL-Library.Word"
begin

section \<open>JavaScript values crossing the process boundary\<close>

text \<open>
  The preload script (the Bridge Layer) and the main process (the Host) exchange
  JavaScript values over Electron's IPC channel. A JavaScript string is a sequence of
  UTF-16 code units and \<open>length\<close> counts code units, so a string is a list of 16-bit
  words. Message texts of \<open>Error\<close> objects are kept as HOL strings.
\<close>

type_synonym jsstring = "16 word list"

definition ascii :: "string \<Rightarrow> jsstring" where
  "ascii s = map (\<lambda>c. of_nat (of_char c)) s"

text \<open>
  A JavaScript number is a double: a finite value (a rational; \<open>-0\<close> behaves as \<open>0\<close> in
  every operation used here), \<open>NaN\<close>, or one of the two infinities.
\<close>

datatype jsnum = Fin rat | NaN | PosInf | NegInf

datatype jsval =
    JUndefined
  | JNull
  | JBool bool
  | JNumber jsnum
  | JString jsstring
  | JArray "jsval list"
  | JObject "(string \<times> jsval) list"

text \<open>A function of the renderer, given to the Bridge as a callback.\<close>

datatype callback = Callback nat

datatype js_error = Error string | TypeError string | RangeError string

text \<open>Comparison of a number with a finite constant; every comparison with \<open>NaN\<close> is false.\<close>

fun num_lt :: "jsnum \<Rightarrow> rat \<Rightarrow> bool" where
  "num_lt (Fin q) c = (q < c)"
| "num_lt NaN c = False"
| "num_lt PosInf c = False"
| "num_lt NegInf c = True"

fun num_gt :: "jsnum \<Rightarrow> rat \<Rightarrow> bool" where
  "num_gt (Fin q) c = (q > c)"
| "num_gt NaN c = False"
| "num_gt PosInf c = True"
| "num_gt NegInf c = False"

fun num_ge :: "jsnum \<Rightarrow> rat \<Rightarrow> bool" where
  "num_ge (Fin q) c = (q \<ge> c)"
| "num_ge NaN c = False"
| "num_ge PosInf c = True"
| "num_ge NegInf c = False"

fun num_le :: "jsnum \<Rightarrow> rat \<Rightarrow> bool" where
  "num_le (Fin q) c = (q \<le> c)"
| "num_le NaN c = False"
| "num_le PosInf c = False"
| "num_le NegInf c = True"

fun isNaN :: "jsnum \<Rightarrow> bool" where
  "isNaN NaN = True"
| "isNaN _ = False"

fun isFinite :: "jsnum \<Rightarrow> bool" where
  "isFinite (Fin q) = True"
| "isFinite _ = False"

text \<open>\<open>Number.isInteger\<close>: finite and without a fractional part.\<close>

fun isInteger :: "jsnum \<Rightarrow> bool" where
  "isInteger (Fin q) = (of_int \<lfloor>q\<rfloor> = q)"
| "isInteger _ = False"

text \<open>
  Property read \<open>v.k\<close> for the keys used by the handlers (\<open>text\<close>, \<open>count\<close>,
  \<open>properties\<close>, \<open>filters\<close>, \<open>name\<close>, \<open>extensions\<close>): an object yields its own
  property or \<open>undefined\<close>; arrays and primitives have no such property. Reading a
  property of \<open>undefined\<close> or \<open>null\<close> throws a \<open>TypeError\<close>; the callers below test
  \<open>is_nullish\<close> first where the source reads without a guard.
\<close>

fun get_prop :: "jsval \<Rightarrow> string \<Rightarrow> jsval" where
  "get_prop (JObject fields) k = (case map_of fields k of None \<Rightarrow> JUndefined | Some v \<Rightarrow> v)"
| "get_prop _ k = JUndefined"

fun is_nullish :: "jsval \<Rightarrow> bool" where
  "is_nullish JUndefined = True"
| "is_nullish JNull = True"
| "is_nullish _ = False"

text \<open>\<open>typeof v === 'object'\<close> holds for objects, arrays and \<open>null\<close>.\<close>

fun typeof_object :: "jsval \<Rightarrow> bool" where
  "typeof_object JNull = True"
| "typeof_object (JArray xs) = True"
| "typeof_object (JObject fields) = True"
| "typeof_object _ = False"

fun truthy :: "jsval \<Rightarrow> bool" where
  "truthy JUndefined = False"
| "truthy JNull = False"
| "truthy (JBool b) = b"
| "truthy (JNumber (Fin q)) = (q \<noteq> 0)"
| "truthy (JNumber NaN) = False"
| "truthy (JNumber _) = True"
| "truthy (JString s) = (s \<noteq> [])"
| "truthy _ = True"

text \<open>\<open>String.prototype.includes\<close>: the argument occurs as a contiguous substring.\<close>

fun is_prefix :: "jsstring \<Rightarrow> jsstring \<Rightarrow> bool" where
  "is_prefix [] s = True"
| "is_prefix (c # cs) [] = False"
| "is_prefix (c # cs) (d # ds) = (c = d \<and> is_prefix cs ds)"

fun str_includes :: "jsstring \<Rightarrow> jsstring \<Rightarrow> bool" where
  "str_includes [] t = (t = [])"
| "str_includes (c # cs) t = (is_prefix t (c # cs) \<or> str_includes cs t)"

text \<open>
  \<open>String.prototype.repeat\<close>: the count is truncated towards zero (\<open>NaN\<close> counts as
  \<open>0\<close>); a negative or infinite count throws a \<open>RangeError\<close>. The engine's limit on the
  length of a string is far above what the handler below can ask for and is left out.
\<close>

fun str_repeat :: "jsstring \<Rightarrow> jsnum \<Rightarrow> js_error + jsstring" where
  "str_repeat s (Fin q) =
     (if q \<le> - 1 then Inl (RangeError ''Invalid count value'')
      else Inr (concat (replicate (nat \<lfloor>q\<rfloor>) s)))"
| "str_repeat s NaN = Inr []"
| "str_repeat s PosInf = Inl (RangeError ''Invalid count value'')"
| "str_repeat s NegInf = Inl (RangeError ''Invalid count value'')"

section \<open>The Bridge Layer: validators of the preload script\<close>

definition isValidString :: "jsval \<Rightarrow> nat \<Rightarrow> bool" where
  "isValidString v maxLength = (case v of JString s \<Rightarrow> length s \<le> maxLength | _ \<Rightarrow> False)"

definition isValidNumber :: "jsval \<Rightarrow> rat \<Rightarrow> rat \<Rightarrow> bool" where
  "isValidNumber v mn mx =
     (case v of
        JNumber n \<Rightarrow> \<not> isNaN n \<and> isFinite n \<and> num_ge n mn \<and> num_le n mx
      | _ \<Rightarrow> False)"

definition isValidPath :: "jsval \<Rightarrow> bool" where
  "isValidPath v =
     (case v of
        JString s \<Rightarrow> length s > 0 \<and> length s < 4096 \<and> \<not> str_includes s [0]
      | _ \<Rightarrow> False)"

section \<open>The Host: the process-data handler of the main process\<close>

record ProcessDataOutput =
  processed :: jsstring
  timestamp :: int

text \<open>
  The handler of channel \<open>process-data\<close>. \<open>now\<close> is the value of \<open>Date.now()\<close>, an
  integer number of milliseconds. Every \<open>throw\<close> is an \<open>Inl\<close>.
\<close>

definition process_data_handler :: "int \<Rightarrow> jsval \<Rightarrow> js_error + ProcessDataOutput" where
  "process_data_handler now data =
     (if \<not> typeof_object data \<or> data = JNull then Inl (Error ''Invalid data format'')
      else
        (case get_prop data ''text'' of
           JString text \<Rightarrow>
             if length text > 1000 then Inl (Error ''Invalid text field'')
             else
               (case get_prop data ''count'' of
                  JNumber count \<Rightarrow>
                    if num_lt count 0 \<or> num_gt count 100 \<or> \<not> isInteger count
                    then Inl (Error ''Invalid count field'')
                    else
                      (case str_repeat text count of
                         Inl e \<Rightarrow> Inl e
                       | Inr s \<Rightarrow> Inr \<lparr>processed = s, timestamp = now\<rparr>)
                | _ \<Rightarrow> Inl (Error ''Invalid count field''))
         | _ \<Rightarrow> Inl (Error ''Invalid text field'')))"

section \<open>The Host: the read-file handler of the main process\<close>

text \<open>
  The handler reaches the operating system through \<open>path.isAbsolute\<close>,
  \<open>fs.promises.stat\<close> and \<open>fs.promises.readFile\<close>. They are parameters of the model:
  a call of the file system either rejects with an error or yields its value.
  \<open>posix_isAbsolute\<close> is \<open>path.isAbsolute\<close> on POSIX systems.
\<close>

record Stats =
  isFile :: bool
  size_bytes :: nat

record host_env =
  path_isAbsolute :: "jsstring \<Rightarrow> bool"
  fs_stat :: "jsstring \<Rightarrow> js_error + Stats"
  fs_readFile :: "jsstring \<Rightarrow> js_error + jsstring"

definition posix_isAbsolute :: "jsstring \<Rightarrow> bool" where
  "posix_isAbsolute p = (case p of [] \<Rightarrow> False | c # cs \<Rightarrow> c = 0x2F)"

text \<open>What the handler does besides returning: file-system calls and Host-side logging.\<close>

datatype host_effect = FsStat jsstring | FsReadFile jsstring | ConsoleError js_error

definition MAX_FILE_SIZE :: nat where
  "MAX_FILE_SIZE = 10 * 1024 * 1024"

definition dotdot :: jsstring where
  "dotdot = [0x2E, 0x2E]"

text \<open>
  The handler of channel \<open>read-file\<close>: the effects in the order they happen, and the
  value the returned promise settles with (\<open>Inl\<close>: rejected with that error). Every
  error raised inside the \<open>try\<close> block is logged and thrown again unchanged.
\<close>

definition read_file_handler :: "host_env \<Rightarrow> jsstring \<Rightarrow> host_effect list \<times> (js_error + jsstring)" where
  "read_file_handler env filePath =
     (if str_includes filePath dotdot \<or> \<not> path_isAbsolute env filePath
      then ([], Inl (Error ''Invalid file path''))
      else
        (case fs_stat env filePath of
           Inl error \<Rightarrow> ([FsStat filePath, ConsoleError error], Inl error)
         | Inr stats \<Rightarrow>
             if \<not> isFile stats
             then ([FsStat filePath, ConsoleError (Error ''Path is not a file'')],
                   Inl (Error ''Path is not a file''))
             else if size_bytes stats > MAX_FILE_SIZE
             then ([FsStat filePath, ConsoleError (Error ''File too large'')],
                   Inl (Error ''File too large''))
             else
               (case fs_readFile env filePath of
                  Inl error \<Rightarrow>
                    ([FsStat filePath, FsReadFile filePath, ConsoleError error], Inl error)
                | Inr content \<Rightarrow> ([FsStat filePath, FsReadFile filePath], Inr content))))"

section \<open>The Bridge Layer: the methods of the exposed API\<close>

text \<open>
  A method that talks to the Host either throws before it touches the channel
  (\<open>Inl\<close>) or ends in exactly one \<open>ipcRenderer.invoke(channel, args)\<close>, whose answer
  it returns unchanged (\<open>Inr\<close>, the request envelope that is sent).
\<close>

type_synonym envelope = "string \<times> jsval list"

definition getAppVersion :: "jsval \<Rightarrow> js_error + envelope" where
  "getAppVersion u = Inr (''get-app-version'', [])"

definition ping :: "jsval \<Rightarrow> js_error + envelope" where
  "ping u = Inr (''ping'', [])"

definition processData :: "jsval \<Rightarrow> js_error + envelope" where
  "processData data =
     (if is_nullish data then Inl (TypeError ''Cannot read properties of undefined or null'')
      else if \<not> isValidString (get_prop data ''text'') 1000
      then Inl (Error ''Invalid text field: must be a string with max 1000 characters'')
      else if \<not> isValidNumber (get_prop data ''count'') 0 100
      then Inl (Error ''Invalid count field: must be a number between 0 and 100'')
      else Inr (''process-data'', [data]))"

definition validProperties :: "jsval list" where
  "validProperties =
     [JString (ascii ''openFile''), JString (ascii ''openDirectory''),
      JString (ascii ''multiSelections'')]"

fun typeof_string :: "jsval \<Rightarrow> bool" where
  "typeof_string (JString s) = True"
| "typeof_string _ = False"

text \<open>
  The predicate given to \<open>options.filters.filter\<close>; reading \<open>filter.name\<close> of an
  element that is \<open>undefined\<close> or \<open>null\<close> throws.
\<close>

definition filter_ok :: "jsval \<Rightarrow> js_error + bool" where
  "filter_ok f =
     (if is_nullish f then Inl (TypeError ''Cannot read properties of undefined or null'')
      else Inr (typeof_string (get_prop f ''name'') \<and>
                (case get_prop f ''extensions'' of
                   JArray exts \<Rightarrow> list_all typeof_string exts
                 | _ \<Rightarrow> False)))"

fun filter_filters :: "jsval list \<Rightarrow> js_error + jsval list" where
  "filter_filters [] = Inr []"
| "filter_filters (f # fs) =
     (case filter_ok f of
        Inl e \<Rightarrow> Inl e
      | Inr keep \<Rightarrow>
          (case filter_filters fs of
             Inl e \<Rightarrow> Inl e
           | Inr rest \<Rightarrow> Inr (if keep then f # rest else rest)))"

definition showOpenDialog :: "jsval \<Rightarrow> js_error + envelope" where
  "showOpenDialog options =
     (let props = (if is_nullish options then JUndefined else get_prop options ''properties'');
          filters = (if is_nullish options then JUndefined else get_prop options ''filters'')
      in
        (case (if truthy props
               then (case props of
                       JArray ps \<Rightarrow>
                         Inr [(''properties'', JArray (filter (\<lambda>p. p \<in> set validProperties) ps))]
                     | _ \<Rightarrow> Inl (TypeError ''options.properties.filter is not a function''))
               else Inr []) of
           Inl e \<Rightarrow> Inl e
         | Inr safe1 \<Rightarrow>
             (case filters of
                JArray fs \<Rightarrow>
                  (case filter_filters fs of
                     Inl e \<Rightarrow> Inl e
                   | Inr kept \<Rightarrow>
                       Inr (''show-open-dialog'', [JObject (safe1 @ [(''filters'', JArray kept)])]))
              | _ \<Rightarrow> Inr (''show-open-dialog'', [JObject safe1]))))"

definition readFile :: "jsval \<Rightarrow> js_error + envelope" where
  "readFile filePath =
     (if \<not> isValidPath filePath then Inl (Error ''Invalid file path'')
      else
        (case filePath of
           JString p \<Rightarrow>
             if str_includes p dotdot then Inl (Error ''Path traversal detected'')
             else Inr (''read-file'', [filePath])
         | _ \<Rightarrow> Inl (Error ''Invalid file path'')))"

subsection \<open>Event subscription\<close>

text \<open>
  \<open>ipcRenderer\<close> is an event emitter: for each channel the listeners in the order they
  were added. A listener is a function object; two closures are the same listener only
  if they are the same object, so every closure carries the number of the
  \<open>onNotification\<close> call that created it, next to the callback it wraps.
\<close>

record ipc_renderer =
  listeners :: "string \<Rightarrow> (nat \<times> callback) list"
  next_closure :: nat

definition ipc_init :: ipc_renderer where
  "ipc_init = \<lparr>listeners = (\<lambda>ch. []), next_closure = 0\<rparr>"

definition ipc_on :: "string \<Rightarrow> nat \<times> callback \<Rightarrow> ipc_renderer \<Rightarrow> ipc_renderer" where
  "ipc_on channel listener st =
     st\<lparr>listeners := (listeners st)(channel := listeners st channel @ [listener])\<rparr>"

text \<open>
  \<open>removeListener\<close> searches the list from its end and removes the first listener
  that is the given function object; it does nothing when there is none.
\<close>

fun remove_first :: "nat \<Rightarrow> (nat \<times> callback) list \<Rightarrow> (nat \<times> callback) list" where
  "remove_first i [] = []"
| "remove_first i (l # ls) = (if fst l = i then ls else l # remove_first i ls)"

definition ipc_removeListener :: "string \<Rightarrow> nat \<Rightarrow> ipc_renderer \<Rightarrow> ipc_renderer" where
  "ipc_removeListener channel i st =
     st\<lparr>listeners := (listeners st)(channel := rev (remove_first i (rev (listeners st channel))))\<rparr>"

text \<open>
  \<open>onNotification\<close> creates the closure \<open>safeCallback\<close>, installs it on channel
  \<open>notification\<close> and returns the unsubscribe closure, which is determined by the
  \<open>safeCallback\<close> it captured.
\<close>

definition onNotification :: "callback \<Rightarrow> ipc_renderer \<Rightarrow> nat \<times> ipc_renderer" where
  "onNotification callback st =
     (let safeCallback = (next_closure st, callback)
      in (fst safeCallback,
          ipc_on ''notification'' safeCallback (st\<lparr>next_closure := Suc (next_closure st)\<rparr>)))"

definition unsubscribe :: "nat \<Rightarrow> ipc_renderer \<Rightarrow> ipc_renderer" where
  "unsubscribe safeCallback st = ipc_removeListener ''notification'' safeCallback st"

text \<open>
  What \<open>safeCallback\<close> does with an inbound message, and the delivery of one message
  to every listener of a channel.
\<close>

datatype renderer_effect = CallbackCalled callback jsstring | ConsoleWarn string

definition safeCallback_run :: "callback \<Rightarrow> jsval \<Rightarrow> renderer_effect" where
  "safeCallback_run callback message =
     (case message of
        JString m \<Rightarrow> CallbackCalled callback m
      | _ \<Rightarrow> ConsoleWarn ''Received invalid notification data'')"

definition ipc_emit :: "string \<Rightarrow> jsval \<Rightarrow> ipc_renderer \<Rightarrow> renderer_effect list" where
  "ipc_emit channel message st =
     map (\<lambda>l. safeCallback_run (snd l) message) (listeners st channel)"

text \<open>The states the preload script can be in: any sequence of subscriptions and
  calls of unsubscribe closures handed out before.\<close>

inductive reachable :: "ipc_renderer \<Rightarrow> bool" where
  reach_init: "reachable ipc_init"
| reach_subscribe: "reachable st \<Longrightarrow> reachable (snd (onNotification callback st))"
| reach_unsubscribe: "reachable st \<Longrightarrow> i < next_closure st \<Longrightarrow> reachable (unsubscribe i st)"

subsection \<open>The object given to \<open>contextBridge.exposeInMainWorld\<close>\<close>

datatype api_method =
    Request "jsval \<Rightarrow> js_error + envelope"
  | Subscription "callback \<Rightarrow> ipc_renderer \<Rightarrow> nat \<times> ipc_renderer"

definition electronAPI :: "(string \<times> api_method) list" where
  "electronAPI =
     [(''getAppVersion'', Request getAppVersion),
      (''ping'', Request ping),
      (''processData'', Request processData),
      (''showOpenDialog'', Request showOpenDialog),
      (''readFile'', Request readFile),
      (''onNotification'', Subscription onNotification)]"

section \<open>A call from the renderer to the Host and back\<close>

fun first_arg :: "jsval list \<Rightarrow> jsval" where
  "first_arg [] = JUndefined"
| "first_arg (a # as) = a"

text \<open>
  \<open>window.electronAPI.processData(data)\<close> as the renderer sees it: the Bridge's
  error, or the answer of the handler registered for the channel of the envelope.
\<close>

definition call_processData :: "int \<Rightarrow> jsval \<Rightarrow> js_error + ProcessDataOutput" where
  "call_processData now data =
     (case processData data of
        Inl e \<Rightarrow> Inl e
      | Inr (channel, args) \<Rightarrow>
          if channel = ''process-data'' then process_data_handler now (first_arg args)
          else Inl (Error ''No handler registered''))"

definition call_readFile :: "host_env \<Rightarrow> jsval \<Rightarrow> host_effect list \<times> (js_error + jsstring)" where
  "call_readFile env filePath =
     (case readFile filePath of
        Inl e \<Rightarrow> ([], Inl e)
      | Inr (channel, args) \<Rightarrow>
          if channel = ''read-file''
          then (case first_arg args of
                  JString p \<Rightarrow> read_file_handler env p
                | _ \<Rightarrow> ([], Inl (TypeError ''filePath.includes is not a function'')))
          else ([], Inl (Error ''No handler registered'')))"

section \<open>Predicates of the specification and example inputs\<close>

text \<open>
  The declared payload constraint of the bounded text transform, in the words of the
  specification: the count is a number in the range 0 to 100, and it is an integer.
\<close>

fun spec_count_in_range :: "jsval \<Rightarrow> bool" where
  "spec_count_in_range (JNumber (Fin q)) = (0 \<le> q \<and> q \<le> 100)"
| "spec_count_in_range _ = False"

fun spec_count_is_integer :: "jsval \<Rightarrow> bool" where
  "spec_count_is_integer (JNumber (Fin q)) = (of_int \<lfloor>q\<rfloor> = q)"
| "spec_count_is_integer _ = False"

text \<open>
  Every closure installed as a listener was created by an earlier call of
  \<open>onNotification\<close>, and no closure is installed twice.
\<close>

definition closures_wf :: "ipc_renderer \<Rightarrow> bool" where
  "closures_wf st =
     (\<forall>ch. distinct (map fst (listeners st ch)) \<and>
           (\<forall>l \<in> set (listeners st ch). fst l < next_closure st))"

text \<open>
  A small file system: a text file, a directory, a file of 10 MiB + 1 bytes, and
  nothing else. \<open>enoent\<close> is the error of Node.js for the missing file
  \<open>/tmp/missing.txt\<close>.
\<close>

definition enoent :: js_error where
  "enoent =
     Error (''ENOENT: no such file or directory, stat '' @ [CHR 0x27] @ ''/tmp/missing.txt'' @
            [CHR 0x27])"

definition demo_env :: host_env where
  "demo_env =
     \<lparr>path_isAbsolute = posix_isAbsolute,
      fs_stat =
        (\<lambda>p. if p = ascii ''/tmp/notes.txt'' then Inr \<lparr>isFile = True, size_bytes = 5\<rparr>
              else if p = ascii ''/tmp'' then Inr \<lparr>isFile = False, size_bytes = 4096\<rparr>
              else if p = ascii ''/tmp/big.bin''
              then Inr \<lparr>isFile = True, size_bytes = 10485761\<rparr>
              else Inl enoent),
      fs_readFile =
        (\<lambda>p. if p = ascii ''/tmp/notes.txt'' then Inr (ascii ''Hello'') else Inl enoent)\<rparr>"

definition two_subscribers :: ipc_renderer where
  "two_subscribers =
     snd (onNotification (Callback 2) (snd (onNotification (Callback 1) ipc_init)))"

section \<open>Auxiliary facts\<close>

lemma is_prefix_iff: "is_prefix t s \<longleftrightarrow> (\<exists>ss. s = t @ ss)"
  by (induction t s rule: is_prefix.induct) auto

text \<open>\<open>str_includes\<close> is the substring relation.\<close>

lemma str_includes_iff: "str_includes s t \<longleftrightarrow> (\<exists>ps ss. s = ps @ t @ ss)"
proof (induction s)
  case Nil
  then show ?case by auto
next
  case (Cons c cs)
  show ?case
  proof
    assume "str_includes (c # cs) t"
    then consider "is_prefix t (c # cs)" | "str_includes cs t" by auto
    then show "\<exists>ps ss. c # cs = ps @ t @ ss"
    proof cases
      case 1
      then obtain ss where "c # cs = t @ ss" by (auto simp: is_prefix_iff)
      then have "c # cs = [] @ t @ ss" by simp
      then show ?thesis by blast
    next
      case 2
      then obtain ps ss where "cs = ps @ t @ ss" using Cons.IH by blast
      then have "c # cs = (c # ps) @ t @ ss" by simp
      then show ?thesis by blast
    qed
  next
    assume "\<exists>ps ss. c # cs = ps @ t @ ss"
    then obtain ps ss where eq: "c # cs = ps @ t @ ss" by blast
    show "str_includes (c # cs) t"
    proof (cases ps)
      case Nil
      with eq have "is_prefix t (c # cs)" by (auto simp: is_prefix_iff)
      then show ?thesis by simp
    next
      case (Cons a as)
      with eq have "cs = as @ t @ ss" by simp
      then have "str_includes cs t" using Cons.IH by blast
      then show ?thesis by simp
    qed
  qed
qed

lemma str_includes_set: "str_includes s t \<Longrightarrow> set t \<subseteq> set s"
  by (auto simp: str_includes_iff)

lemma prop_is_object:
  "get_prop data k = JString s \<Longrightarrow> typeof_object data \<and> data \<noteq> JNull \<and> \<not> is_nullish data"
  by (cases data) auto

lemma floor_three_halves: "\<lfloor>3 / 2 :: rat\<rfloor> = 1"
  by (simp add: floor_eq_iff)

lemma floor_five_halves: "\<lfloor>5 / 2 :: rat\<rfloor> = 2"
  by (simp add: floor_eq_iff)

section \<open>The bounded text transform\<close>

text \<open>
  Claim C4. For every input whose \<open>text\<close> is a string of at most 1000 code units and
  whose \<open>count\<close> is an integer from 0 to 100, the \<open>process-data\<close> handler of the Host
  succeeds and returns the text repeated \<open>count\<close> times together with the integer
  timestamp of the clock; \<open>{text: "Hello", count: 3}\<close> yields \<open>"HelloHelloHello"\<close>.
\<close>

theorem process_data_handler_valid:
  assumes "get_prop data ''text'' = JString text" and "length text \<le> 1000"
    and "get_prop data ''count'' = JNumber (Fin (of_int n))" and "0 \<le> n" and "n \<le> 100"
  shows "process_data_handler now data =
           Inr \<lparr>processed = concat (replicate (nat n) text), timestamp = now\<rparr>"
proof -
  have obj: "typeof_object data \<and> data \<noteq> JNull" using assms(1) prop_is_object by blast
  have "\<not> (rat_of_int n < 0)" "\<not> (rat_of_int n > 100)" using assms(4,5) by auto
  moreover have "\<not> (rat_of_int n \<le> - 1)" using assms(4) by linarith
  ultimately show ?thesis using assms obj
    by (simp add: process_data_handler_def)
qed

theorem process_data_handler_valid_witness:
  "length (ascii ''Hello'') \<le> 1000 \<and>
   process_data_handler 1700000000000
     (JObject [(''text'', JString (ascii ''Hello'')), (''count'', JNumber (Fin 3))]) =
   Inr \<lparr>processed = ascii ''HelloHelloHello'', timestamp = 1700000000000\<rparr>"
proof -
  let ?d = "JObject [(''text'', JString (ascii ''Hello'')), (''count'', JNumber (Fin 3))]"
  have h1: "get_prop ?d ''text'' = JString (ascii ''Hello'')" by simp
  have h2: "length (ascii ''Hello'') \<le> 1000" by (simp add: ascii_def)
  have h3: "get_prop ?d ''count'' = JNumber (Fin (of_int 3))" by simp
  have h4: "(0::int) \<le> 3" and h5: "(3::int) \<le> 100" by simp_all
  from process_data_handler_valid [OF h1 h2 h3 h4 h5, of 1700000000000] h2
  show ?thesis by (simp add: ascii_def numeral_3_eq_3)
qed

text \<open>
  Claim C6. For every text longer than 1000 code units the Bridge's \<open>processData\<close>
  throws its validation error before it invokes the channel: no request envelope is
  produced, so the Host is not contacted and the caller sees that error.
\<close>

theorem processData_text_too_long:
  assumes "get_prop data ''text'' = JString text" and "length text > 1000"
  shows "processData data =
           Inl (Error ''Invalid text field: must be a string with max 1000 characters'') \<and>
         call_processData now data =
           Inl (Error ''Invalid text field: must be a string with max 1000 characters'')"
proof -
  have nn: "\<not> is_nullish data" using assms(1) prop_is_object by blast
  have "\<not> isValidString (get_prop data ''text'') 1000"
    using assms by (simp add: isValidString_def)
  then have "processData data =
           Inl (Error ''Invalid text field: must be a string with max 1000 characters'')"
    using nn by (simp add: processData_def)
  then show ?thesis by (simp add: call_processData_def)
qed

theorem processData_text_too_long_witness:
  "length (replicate 1001 (0x61 :: 16 word)) > 1000 \<and>
   processData
     (JObject [(''text'', JString (replicate 1001 0x61)), (''count'', JNumber (Fin 1))]) =
     Inl (Error ''Invalid text field: must be a string with max 1000 characters'') \<and>
   call_processData 0
     (JObject [(''text'', JString (replicate 1001 0x61)), (''count'', JNumber (Fin 1))]) =
     Inl (Error ''Invalid text field: must be a string with max 1000 characters'')"
proof -
  let ?d = "JObject [(''text'', JString (replicate 1001 0x61)), (''count'', JNumber (Fin 1))]"
  have h1: "get_prop ?d ''text'' = JString (replicate 1001 0x61)" by simp
  have h2: "length (replicate 1001 (0x61 :: 16 word)) > 1000" by simp
  from processData_text_too_long [OF h1 h2, of 0] h2 show ?thesis by blast
qed

subsection \<open>Validation of the count at both layers\<close>

lemma isValidNumber_range: "isValidNumber c 0 100 = spec_count_in_range c"
  by (cases c rule: spec_count_in_range.cases) (auto simp: isValidNumber_def)

lemma process_data_handler_count_message:
  assumes "get_prop data ''text'' = JString text" and "length text \<le> 1000"
    and "get_prop data ''count'' = c"
    and "\<not> (spec_count_in_range c \<and> spec_count_is_integer c)"
  shows "process_data_handler now data = Inl (Error ''Invalid count field'')"
proof -
  have obj: "typeof_object data \<and> data \<noteq> JNull" using assms(1) prop_is_object by blast
  show ?thesis using assms obj
    by (cases c rule: spec_count_in_range.cases) (auto simp: process_data_handler_def)
qed

lemma process_data_handler_invalid_count:
  assumes "get_prop data ''count'' = c"
    and "\<not> (spec_count_in_range c \<and> spec_count_is_integer c)"
  shows "process_data_handler now data =
           Inl (if \<not> typeof_object data \<or> data = JNull then Error ''Invalid data format''
                else if \<not> isValidString (get_prop data ''text'') 1000
                then Error ''Invalid text field''
                else Error ''Invalid count field'')"
proof (cases "typeof_object data \<and> data \<noteq> JNull")
  case False
  then show ?thesis by (auto simp: process_data_handler_def)
next
  case True
  note obj = this
  show ?thesis
  proof (cases "isValidString (get_prop data ''text'') 1000")
    case False
    then show ?thesis using obj
      by (auto simp: process_data_handler_def isValidString_def split: jsval.splits)
  next
    case True
    then obtain s where t: "get_prop data ''text'' = JString s" "length s \<le> 1000"
      by (auto simp: isValidString_def split: jsval.splits)
    have "process_data_handler now data = Inl (Error ''Invalid count field'')"
      using t assms by (rule process_data_handler_count_message)
    then show ?thesis using obj True by simp
  qed
qed

lemma processData_cases:
  assumes "\<not> is_nullish data" and "get_prop data ''count'' = c"
  shows "processData data =
           (if \<not> isValidString (get_prop data ''text'') 1000
            then Inl (Error ''Invalid text field: must be a string with max 1000 characters'')
            else if \<not> spec_count_in_range c
            then Inl (Error ''Invalid count field: must be a number between 0 and 100'')
            else Inr (''process-data'', [data]))"
  using assms by (simp add: processData_def isValidNumber_range)

lemma not_nullish_object: "\<not> is_nullish data \<Longrightarrow> (\<not> typeof_object data \<or> data = JNull) = (\<not> typeof_object data)"
  by (cases data) auto

lemma valid_text_object: "isValidString (get_prop data ''text'') 1000 \<Longrightarrow> typeof_object data \<and> data \<noteq> JNull"
  by (cases data) (auto simp: isValidString_def)

text \<open>
  Claim C2, as the code has it. Take a payload (not \<open>undefined\<close> or \<open>null\<close>) whose
  count is outside 0 to 100 or not an integer. The \<open>process-data\<close> handler of the Host
  rejects it with a validation failure: \<open>Invalid data format\<close> for a payload that is
  not an object, \<open>Invalid text field\<close> for an invalid text, and \<open>Invalid count field\<close>
  otherwise. The Bridge rejects an invalid text with its text message and a count that
  is not a finite number from 0 to 100 with
  \<open>Invalid count field: must be a number between 0 and 100\<close>; a count in that range that
  is not an integer passes the Bridge and is forwarded. The call as a whole always
  fails with a validation failure: the Bridge's message where the Bridge rejects, and the
  Host's \<open>Invalid count field\<close> for a forwarded non-integer count.
\<close>

theorem count_validation_layers:
  assumes "\<not> is_nullish data" and "get_prop data ''count'' = c"
    and "\<not> (spec_count_in_range c \<and> spec_count_is_integer c)"
  shows "process_data_handler now data =
           Inl (if \<not> typeof_object data then Error ''Invalid data format''
                else if \<not> isValidString (get_prop data ''text'') 1000
                then Error ''Invalid text field''
                else Error ''Invalid count field'') \<and>
         processData data =
           (if \<not> isValidString (get_prop data ''text'') 1000
            then Inl (Error ''Invalid text field: must be a string with max 1000 characters'')
            else if \<not> spec_count_in_range c
            then Inl (Error ''Invalid count field: must be a number between 0 and 100'')
            else Inr (''process-data'', [data])) \<and>
         call_processData now data =
           Inl (if \<not> isValidString (get_prop data ''text'') 1000
                then Error ''Invalid text field: must be a string with max 1000 characters''
                else if \<not> spec_count_in_range c
                then Error ''Invalid count field: must be a number between 0 and 100''
                else Error ''Invalid count field'')"
proof -
  have host: "process_data_handler now data =
           Inl (if \<not> typeof_object data then Error ''Invalid data format''
                else if \<not> isValidString (get_prop data ''text'') 1000
                then Error ''Invalid text field''
                else Error ''Invalid count field'')"
    using process_data_handler_invalid_count [OF assms(2,3), of now]
      not_nullish_object [OF assms(1)] by simp
  have bridge: "processData data =
           (if \<not> isValidString (get_prop data ''text'') 1000
            then Inl (Error ''Invalid text field: must be a string with max 1000 characters'')
            else if \<not> spec_count_in_range c
            then Inl (Error ''Invalid count field: must be a number between 0 and 100'')
            else Inr (''process-data'', [data]))"
    using assms(1,2) by (rule processData_cases)
  have call: "call_processData now data =
           Inl (if \<not> isValidString (get_prop data ''text'') 1000
                then Error ''Invalid text field: must be a string with max 1000 characters''
                else if \<not> spec_count_in_range c
                then Error ''Invalid count field: must be a number between 0 and 100''
                else Error ''Invalid count field'')"
  proof (cases "isValidString (get_prop data ''text'') 1000 \<and> spec_count_in_range c")
    case False
    then show ?thesis using bridge by (auto simp: call_processData_def)
  next
    case True
    then have "typeof_object data" using valid_text_object by blast
    then show ?thesis using True bridge host by (simp add: call_processData_def)
  qed
  show ?thesis using host bridge call by blast
qed

theorem count_validation_layers_witness:
  "spec_count_in_range (JNumber (Fin (5 / 2))) \<and>
   process_data_handler 0
     (JObject [(''text'', JString (ascii ''Hello'')), (''count'', JNumber (Fin (5 / 2)))]) =
     Inl (Error ''Invalid count field'') \<and>
   processData (JObject [(''text'', JString (ascii ''Hello'')), (''count'', JNumber (Fin (5 / 2)))]) =
     Inr (''process-data'',
          [JObject [(''text'', JString (ascii ''Hello'')), (''count'', JNumber (Fin (5 / 2)))]]) \<and>
   call_processData 0
     (JObject [(''text'', JString (ascii ''Hello'')), (''count'', JNumber (Fin (5 / 2)))]) =
     Inl (Error ''Invalid count field'') \<and>
   process_data_handler 0
     (JObject [(''text'', JString (ascii ''Hello'')), (''count'', JNumber (Fin (- 1)))]) =
     Inl (Error ''Invalid count field'') \<and>
   call_processData 0
     (JObject [(''text'', JString (ascii ''Hello'')), (''count'', JNumber (Fin (- 1)))]) =
     Inl (Error ''Invalid count field: must be a number between 0 and 100'')"
proof -
  let ?d = "JObject [(''text'', JString (ascii ''Hello'')), (''count'', JNumber (Fin (5 / 2)))]"
  let ?m = "JObject [(''text'', JString (ascii ''Hello'')), (''count'', JNumber (Fin (- 1)))]"
  have n1: "\<not> is_nullish ?d" and n2: "\<not> is_nullish ?m" by simp_all
  have o1: "typeof_object ?d" and o2: "typeof_object ?m" by simp_all
  have h1: "get_prop ?d ''count'' = JNumber (Fin (5 / 2))" by simp
  have h2: "\<not> (spec_count_in_range (JNumber (Fin (5 / 2))) \<and>
                spec_count_is_integer (JNumber (Fin (5 / 2))))"
    by (simp add: floor_five_halves)
  have h3: "spec_count_in_range (JNumber (Fin (5 / 2)))" by simp
  have t1: "isValidString (get_prop ?d ''text'') 1000" by (simp add: isValidString_def ascii_def)
  have g1: "get_prop ?m ''count'' = JNumber (Fin (- 1))" by simp
  have g2: "\<not> (spec_count_in_range (JNumber (Fin (- 1))) \<and>
                spec_count_is_integer (JNumber (Fin (- 1))))"
    by simp
  have g3: "\<not> spec_count_in_range (JNumber (Fin (- 1)))" by simp
  have t2: "isValidString (get_prop ?m ''text'') 1000" by (simp add: isValidString_def ascii_def)
  from count_validation_layers [OF n1 h1 h2, of 0] count_validation_layers [OF n2 g1 g2, of 0]
    o1 o2 h3 t1 g3 t2
  show ?thesis by simp
qed

text \<open>
  The claim as stated fails: the Bridge forwards the count \<open>1.5\<close>, which only the Host
  rejects; and for the count \<open>1000\<close>, which both layers reject, the two layers fail
  with different messages.
\<close>

theorem count_validation_counterexample:
  "\<not> spec_count_is_integer (JNumber (Fin (3 / 2))) \<and>
   processData (JObject [(''text'', JString (ascii ''Hello'')), (''count'', JNumber (Fin (3 / 2)))]) =
     Inr (''process-data'',
          [JObject [(''text'', JString (ascii ''Hello'')), (''count'', JNumber (Fin (3 / 2)))]]) \<and>
   process_data_handler 0
     (JObject [(''text'', JString (ascii ''Hello'')), (''count'', JNumber (Fin (3 / 2)))]) =
     Inl (Error ''Invalid count field'') \<and>
   processData (JObject [(''text'', JString (ascii ''Hello'')), (''count'', JNumber (Fin 1000))]) =
     Inl (Error ''Invalid count field: must be a number between 0 and 100'') \<and>
   process_data_handler 0
     (JObject [(''text'', JString (ascii ''Hello'')), (''count'', JNumber (Fin 1000))]) =
     Inl (Error ''Invalid count field'')"
  by (simp add: processData_def process_data_handler_def isValidString_def isValidNumber_def
      ascii_def floor_three_halves)

section \<open>The bounded file read\<close>

lemma readFile_dotdot:
  assumes "str_includes p dotdot"
  shows "readFile (JString p) =
           Inl (if isValidPath (JString p) then Error ''Path traversal detected''
                else Error ''Invalid file path'')"
  using assms by (simp add: readFile_def)

lemma read_file_handler_dotdot:
  assumes "str_includes p dotdot"
  shows "read_file_handler env p = ([], Inl (Error ''Invalid file path''))"
  using assms by (simp add: read_file_handler_def)

lemma readFile_too_long:
  assumes "length p \<ge> 4096"
  shows "readFile (JString p) = Inl (Error ''Invalid file path'')"
  using assms by (simp add: readFile_def isValidPath_def)

lemma read_file_handler_stat_error:
  assumes "\<not> str_includes p dotdot" and "path_isAbsolute env p" and "fs_stat env p = Inl e"
  shows "read_file_handler env p = ([FsStat p, ConsoleError e], Inl e)"
  using assms by (simp add: read_file_handler_def)

lemma read_file_handler_read_error:
  assumes "\<not> str_includes p dotdot" and "path_isAbsolute env p"
    and "fs_stat env p = Inr st" and "isFile st" and "size_bytes st \<le> MAX_FILE_SIZE"
    and "fs_readFile env p = Inl e"
  shows "read_file_handler env p = ([FsStat p, FsReadFile p, ConsoleError e], Inl e)"
  using assms by (simp add: read_file_handler_def)

text \<open>
  Claim C5. For every path that contains \<open>..\<close>, the file read fails before the file
  system is touched: the Bridge's \<open>readFile\<close> throws instead of sending a request, and
  the Host's handler rejects with no \<open>stat\<close> and no \<open>readFile\<close> call (and nothing else)
  among its effects.
\<close>

theorem traversal_fails_before_filesystem:
  assumes "str_includes p dotdot"
  shows "(\<exists>e. readFile (JString p) = Inl e) \<and>
         fst (read_file_handler env p) = [] \<and>
         (\<exists>e. snd (read_file_handler env p) = Inl e) \<and>
         fst (call_readFile env (JString p)) = [] \<and>
         (\<exists>e. snd (call_readFile env (JString p)) = Inl e)"
  using readFile_dotdot [OF assms] read_file_handler_dotdot [OF assms, of env]
  by (simp add: call_readFile_def)

theorem traversal_fails_before_filesystem_witness:
  "str_includes (ascii ''/tmp/../etc/passwd'') dotdot \<and>
   readFile (JString (ascii ''/tmp/../etc/passwd'')) = Inl (Error ''Path traversal detected'') \<and>
   fst (read_file_handler demo_env (ascii ''/tmp/../etc/passwd'')) = [] \<and>
   fst (call_readFile demo_env (JString (ascii ''/tmp/../etc/passwd''))) = []"
proof -
  have h: "str_includes (ascii ''/tmp/../etc/passwd'') dotdot"
    by (simp add: ascii_def dotdot_def)
  have v: "isValidPath (JString (ascii ''/tmp/../etc/passwd''))"
    by (simp add: isValidPath_def ascii_def)
  from traversal_fails_before_filesystem [OF h, of demo_env] h v show ?thesis
    by (simp add: readFile_def)
qed

text \<open>
  Claim C10. The validation rejects every path in which \<open>..\<close> occurs anywhere, also
  inside a file name as in \<open>/tmp/a..b\<close>: the Bridge's \<open>readFile\<close> throws, the Host's
  handler rejects with \<open>Invalid file path\<close>, and a call through the exposed API
  never returns file contents for such a path.
\<close>

theorem dotdot_anywhere_rejected:
  assumes "p = ps @ dotdot @ ss"
  shows "readFile (JString p) =
           Inl (if isValidPath (JString p) then Error ''Path traversal detected''
                else Error ''Invalid file path'') \<and>
         read_file_handler env p = ([], Inl (Error ''Invalid file path'')) \<and>
         (\<exists>e. call_readFile env (JString p) = ([], Inl e))"
proof -
  have inc: "str_includes p dotdot" using assms str_includes_iff by blast
  show ?thesis
    using readFile_dotdot [OF inc] read_file_handler_dotdot [OF inc, of env]
    by (simp add: call_readFile_def)
qed

theorem dotdot_anywhere_rejected_witness:
  "ascii ''/tmp/a..b'' = ascii ''/tmp/a'' @ dotdot @ ascii ''b'' \<and>
   posix_isAbsolute (ascii ''/tmp/a..b'') \<and>
   readFile (JString (ascii ''/tmp/a..b'')) = Inl (Error ''Path traversal detected'') \<and>
   read_file_handler demo_env (ascii ''/tmp/a..b'') = ([], Inl (Error ''Invalid file path'')) \<and>
   call_readFile demo_env (JString (ascii ''/tmp/a..b'')) =
     ([], Inl (Error ''Path traversal detected''))"
proof -
  have h: "ascii ''/tmp/a..b'' = ascii ''/tmp/a'' @ dotdot @ ascii ''b''"
    by (simp add: ascii_def dotdot_def)
  have v: "isValidPath (JString (ascii ''/tmp/a..b''))"
    by (simp add: isValidPath_def ascii_def)
  have a: "posix_isAbsolute (ascii ''/tmp/a..b'')"
    by (simp add: posix_isAbsolute_def ascii_def)
  from dotdot_anywhere_rejected [OF h, of demo_env] h v a show ?thesis
    by (auto simp: call_readFile_def)
qed

text \<open>
  Claim C7, as the code has it. For every path that is absolute, contains no \<open>..\<close> and
  no NUL character, and has a length of at most 4095 code units, the Bridge's
  \<open>readFile\<close> accepts it and forwards the request on channel \<open>read-file\<close>.
\<close>

theorem readFile_accepts:
  assumes "posix_isAbsolute p" and "\<not> str_includes p dotdot" and "\<not> str_includes p [0]"
    and "length p < 4096"
  shows "readFile (JString p) = Inr (''read-file'', [JString p])"
proof -
  have "p \<noteq> []" using assms(1) by (auto simp: posix_isAbsolute_def)
  then have "isValidPath (JString p)" using assms(3,4) by (simp add: isValidPath_def)
  then show ?thesis using assms(2) by (simp add: readFile_def)
qed

theorem readFile_accepts_witness:
  "posix_isAbsolute (ascii ''/tmp/notes.txt'') \<and>
   length (ascii ''/tmp/notes.txt'') < 4096 \<and>
   readFile (JString (ascii ''/tmp/notes.txt'')) =
     Inr (''read-file'', [JString (ascii ''/tmp/notes.txt'')])"
proof -
  have h1: "posix_isAbsolute (ascii ''/tmp/notes.txt'')"
    by (simp add: posix_isAbsolute_def ascii_def)
  have h2: "\<not> str_includes (ascii ''/tmp/notes.txt'') dotdot" by (simp add: ascii_def dotdot_def)
  have h3: "\<not> str_includes (ascii ''/tmp/notes.txt'') [0]" by (simp add: ascii_def)
  have h4: "length (ascii ''/tmp/notes.txt'') < 4096" by (simp add: ascii_def)
  from readFile_accepts [OF h1 h2 h3 h4] h1 h4 show ?thesis by simp
qed

text \<open>
  The claim as stated fails at the bound: an absolute path of exactly 4096 code units
  without \<open>..\<close> is rejected by the Bridge, and so is an absolute path with a NUL character.
\<close>

theorem readFile_length_counterexample:
  "posix_isAbsolute (0x2F # replicate 4095 0x61) \<and>
   \<not> str_includes (0x2F # replicate 4095 0x61) dotdot \<and>
   length (0x2F # replicate 4095 (0x61 :: 16 word)) \<le> 4096 \<and>
   readFile (JString (0x2F # replicate 4095 0x61)) = Inl (Error ''Invalid file path'') \<and>
   posix_isAbsolute [0x2F, 0x61, 0, 0x62] \<and>
   \<not> str_includes [0x2F, 0x61, 0, 0x62] dotdot \<and>
   readFile (JString [0x2F, 0x61, 0, 0x62]) = Inl (Error ''Invalid file path'')"
proof -
  have "\<not> set dotdot \<subseteq> set (0x2F # replicate 4095 (0x61 :: 16 word))"
    by (simp add: dotdot_def)
  then have "\<not> str_includes (0x2F # replicate 4095 0x61) dotdot"
    using str_includes_set by blast
  moreover have "readFile (JString (0x2F # replicate 4095 0x61)) =
      Inl (Error ''Invalid file path'')"
    by (rule readFile_too_long) simp
  moreover have "readFile (JString [0x2F, 0x61, 0, 0x62]) = Inl (Error ''Invalid file path'')"
    by (simp add: readFile_def isValidPath_def)
  ultimately show ?thesis by (simp add: posix_isAbsolute_def dotdot_def)
qed

text \<open>
  Claim C8. For a path that passes the Host's validation, the \<open>read-file\<close> handler
  returns file contents exactly when \<open>stat\<close> reports a regular file of at most
  \<open>10 * 1024 * 1024\<close> bytes and the read succeeds; when \<open>stat\<close> reports something that
  is not a regular file, or a larger size, the call fails and the file is never read.
\<close>

theorem read_file_regular_and_bounded:
  assumes "\<not> str_includes p dotdot" and "path_isAbsolute env p"
  shows "(snd (read_file_handler env p) = Inr content \<longleftrightarrow>
            (\<exists>st. fs_stat env p = Inr st \<and> isFile st \<and> size_bytes st \<le> 10 * 1024 * 1024) \<and>
            fs_readFile env p = Inr content) \<and>
         (\<forall>st. fs_stat env p = Inr st \<and> (\<not> isFile st \<or> size_bytes st > 10 * 1024 * 1024) \<longrightarrow>
            (\<exists>e. snd (read_file_handler env p) = Inl e) \<and>
            FsReadFile p \<notin> set (fst (read_file_handler env p)))"
  using assms
  by (auto simp: read_file_handler_def MAX_FILE_SIZE_def split: sum.splits)

theorem read_file_regular_and_bounded_witness:
  "snd (read_file_handler demo_env (ascii ''/tmp/notes.txt'')) = Inr (ascii ''Hello'') \<and>
   (\<exists>e. snd (read_file_handler demo_env (ascii ''/tmp/big.bin'')) = Inl e) \<and>
   FsReadFile (ascii ''/tmp/big.bin'')
     \<notin> set (fst (read_file_handler demo_env (ascii ''/tmp/big.bin''))) \<and>
   (\<exists>e. snd (read_file_handler demo_env (ascii ''/tmp'')) = Inl e) \<and>
   FsReadFile (ascii ''/tmp'') \<notin> set (fst (read_file_handler demo_env (ascii ''/tmp'')))"
proof -
  have a1: "\<not> str_includes (ascii ''/tmp/big.bin'') dotdot" by (simp add: ascii_def dotdot_def)
  have a2: "path_isAbsolute demo_env (ascii ''/tmp/big.bin'')"
    by (simp add: demo_env_def posix_isAbsolute_def ascii_def)
  have a3: "fs_stat demo_env (ascii ''/tmp/big.bin'') =
      Inr \<lparr>isFile = True, size_bytes = 10485761\<rparr>"
    by (simp add: demo_env_def ascii_def)
  have b1: "\<not> str_includes (ascii ''/tmp'') dotdot" by (simp add: ascii_def dotdot_def)
  have b2: "path_isAbsolute demo_env (ascii ''/tmp'')"
    by (simp add: demo_env_def posix_isAbsolute_def ascii_def)
  have b3: "fs_stat demo_env (ascii ''/tmp'') = Inr \<lparr>isFile = False, size_bytes = 4096\<rparr>"
    by (simp add: demo_env_def ascii_def)
  have c1: "\<not> str_includes (ascii ''/tmp/notes.txt'') dotdot" by (simp add: ascii_def dotdot_def)
  have c2: "path_isAbsolute demo_env (ascii ''/tmp/notes.txt'')"
    by (simp add: demo_env_def posix_isAbsolute_def ascii_def)
  have c3: "fs_stat demo_env (ascii ''/tmp/notes.txt'') = Inr \<lparr>isFile = True, size_bytes = 5\<rparr>"
    by (simp add: demo_env_def ascii_def)
  have c4: "fs_readFile demo_env (ascii ''/tmp/notes.txt'') = Inr (ascii ''Hello'')"
    by (simp add: demo_env_def ascii_def)
  have big: "(\<exists>e. snd (read_file_handler demo_env (ascii ''/tmp/big.bin'')) = Inl e) \<and>
      FsReadFile (ascii ''/tmp/big.bin'')
        \<notin> set (fst (read_file_handler demo_env (ascii ''/tmp/big.bin'')))"
    using read_file_regular_and_bounded [OF a1 a2, of "[]"] a3 by simp
  have dir: "(\<exists>e. snd (read_file_handler demo_env (ascii ''/tmp'')) = Inl e) \<and>
      FsReadFile (ascii ''/tmp'') \<notin> set (fst (read_file_handler demo_env (ascii ''/tmp'')))"
    using read_file_regular_and_bounded [OF b1 b2, of "[]"] b3 by simp
  have ok: "snd (read_file_handler demo_env (ascii ''/tmp/notes.txt'')) = Inr (ascii ''Hello'')"
    using read_file_regular_and_bounded [OF c1 c2, of "ascii ''Hello''"] c3 c4 by simp
  show ?thesis using big dir ok by blast
qed

text \<open>
  Claim C1 says that a failure inside the privileged operation reaches the caller only
  as a generic message. The handler logs the error and throws the same error again:
  for the missing file \<open>/tmp/missing.txt\<close> the rejection that crosses to the renderer is
  the error of the file system itself, whose message names the system call and the path.
\<close>

theorem read_file_error_forwarded:
  "read_file_handler demo_env (ascii ''/tmp/missing.txt'') =
     ([FsStat (ascii ''/tmp/missing.txt''), ConsoleError enoent], Inl enoent) \<and>
   call_readFile demo_env (JString (ascii ''/tmp/missing.txt'')) =
     ([FsStat (ascii ''/tmp/missing.txt''), ConsoleError enoent], Inl enoent)"
proof -
  have a1: "\<not> str_includes (ascii ''/tmp/missing.txt'') dotdot"
    by (simp add: ascii_def dotdot_def)
  have a2: "path_isAbsolute demo_env (ascii ''/tmp/missing.txt'')"
    by (simp add: demo_env_def posix_isAbsolute_def ascii_def)
  have a3: "fs_stat demo_env (ascii ''/tmp/missing.txt'') = Inl enoent"
    by (simp add: demo_env_def ascii_def)
  have v: "isValidPath (JString (ascii ''/tmp/missing.txt''))"
    by (simp add: isValidPath_def ascii_def)
  have h: "read_file_handler demo_env (ascii ''/tmp/missing.txt'') =
     ([FsStat (ascii ''/tmp/missing.txt''), ConsoleError enoent], Inl enoent)"
    by (rule read_file_handler_stat_error [OF a1 a2 a3])
  show ?thesis using h a1 v by (simp add: call_readFile_def readFile_def)
qed

section \<open>The capability surface\<close>

lemma getAppVersion_channel: "getAppVersion a = Inr (ch, args) \<Longrightarrow> ch = ''get-app-version''"
  by (auto simp: getAppVersion_def)

lemma ping_channel: "ping a = Inr (ch, args) \<Longrightarrow> ch = ''ping''"
  by (auto simp: ping_def)

lemma processData_channel: "processData a = Inr (ch, args) \<Longrightarrow> ch = ''process-data''"
  by (auto simp: processData_def split: if_splits)

lemma showOpenDialog_channel:
  "showOpenDialog a = Inr (ch, args) \<Longrightarrow> ch = ''show-open-dialog''"
  by (auto simp: showOpenDialog_def Let_def split: if_splits sum.splits jsval.splits)

lemma readFile_channel: "readFile a = Inr (ch, args) \<Longrightarrow> ch = ''read-file''"
  by (auto simp: readFile_def split: if_splits jsval.splits)

lemma onNotification_other_channels:
  "ch \<noteq> ''notification'' \<Longrightarrow> listeners (snd (onNotification cb st)) ch = listeners st ch"
  by (simp add: onNotification_def ipc_on_def)

lemma request_methods:
  "(name, Request f) \<in> set electronAPI \<Longrightarrow>
     (name = ''getAppVersion'' \<and> f = getAppVersion) \<or>
     (name = ''ping'' \<and> f = ping) \<or>
     (name = ''processData'' \<and> f = processData) \<or>
     (name = ''showOpenDialog'' \<and> f = showOpenDialog) \<or>
     (name = ''readFile'' \<and> f = readFile)"
  unfolding electronAPI_def by simp

text \<open>
  The object exposed to the renderer has the six methods \<open>getAppVersion\<close>, \<open>ping\<close>,
  \<open>processData\<close>, \<open>showOpenDialog\<close>, \<open>readFile\<close> and \<open>onNotification\<close>. None of them
  passes a channel name through: whatever the argument, a request method sends only on
  the one channel that belongs to it, and the subscription method installs a listener
  on \<open>notification\<close> only.
\<close>

lemma electronAPI_methods_and_channels:
  "map fst electronAPI =
     [''getAppVersion'', ''ping'', ''processData'', ''showOpenDialog'', ''readFile'',
      ''onNotification''] \<and>
   (\<forall>name f a ch args.
      (name, Request f) \<in> set electronAPI \<and> f a = Inr (ch, args) \<longrightarrow>
      (name, ch) \<in> {(''getAppVersion'', ''get-app-version''), (''ping'', ''ping''),
                     (''processData'', ''process-data''),
                     (''showOpenDialog'', ''show-open-dialog''), (''readFile'', ''read-file'')}) \<and>
   (\<forall>name f cb st ch.
      (name, Subscription f) \<in> set electronAPI \<and> ch \<noteq> ''notification'' \<longrightarrow>
      name = ''onNotification'' \<and> listeners (snd (f cb st)) ch = listeners st ch)"
proof (intro conjI allI impI)
  show "map fst electronAPI =
     [''getAppVersion'', ''ping'', ''processData'', ''showOpenDialog'', ''readFile'',
      ''onNotification'']"
    by (simp add: electronAPI_def)
next
  fix name f a ch args
  assume h: "(name, Request f) \<in> set electronAPI \<and> f a = Inr (ch, args)"
  then have mem: "(name, Request f) \<in> set electronAPI" and fa: "f a = Inr (ch, args)"
    by simp_all
  from request_methods [OF mem]
  show "(name, ch) \<in> {(''getAppVersion'', ''get-app-version''), (''ping'', ''ping''),
                     (''processData'', ''process-data''),
                     (''showOpenDialog'', ''show-open-dialog''), (''readFile'', ''read-file'')}"
  proof (elim disjE conjE)
    assume "name = ''getAppVersion''" "f = getAppVersion"
    then show ?thesis using fa getAppVersion_channel [of a ch args] by simp
  next
    assume "name = ''ping''" "f = ping"
    then show ?thesis using fa ping_channel [of a ch args] by simp
  next
    assume "name = ''processData''" "f = processData"
    then show ?thesis using fa processData_channel [of a ch args] by simp
  next
    assume "name = ''showOpenDialog''" "f = showOpenDialog"
    then show ?thesis using fa showOpenDialog_channel [of a ch args] by simp
  next
    assume "name = ''readFile''" "f = readFile"
    then show ?thesis using fa readFile_channel [of a ch args] by simp
  qed
next
  fix name f cb st ch
  assume h: "(name, Subscription f) \<in> set electronAPI \<and> ch \<noteq> ''notification''"
  then show "name = ''onNotification''" by (simp add: electronAPI_def)
next
  fix name f cb st ch
  assume h: "(name, Subscription f) \<in> set electronAPI \<and> ch \<noteq> ''notification''"
  then have "f = onNotification" by (simp add: electronAPI_def)
  then show "listeners (snd (f cb st)) ch = listeners st ch"
    using h onNotification_other_channels by simp
qed

lemma electronAPI_methods_and_channels_example:
  "map fst electronAPI =
     [''getAppVersion'', ''ping'', ''processData'', ''showOpenDialog'', ''readFile'',
      ''onNotification''] \<and>
   (''readFile'', Request readFile) \<in> set electronAPI \<and>
   readFile (JString (ascii ''/tmp/notes.txt'')) =
     Inr (''read-file'', [JString (ascii ''/tmp/notes.txt'')]) \<and>
   (''onNotification'', Subscription onNotification) \<in> set electronAPI \<and>
   listeners (snd (onNotification (Callback 1) ipc_init)) ''ping'' = listeners ipc_init ''ping''"
proof -
  have names: "map fst electronAPI =
     [''getAppVersion'', ''ping'', ''processData'', ''showOpenDialog'', ''readFile'',
      ''onNotification'']"
    using electronAPI_methods_and_channels by (rule conjunct1)
  have m1: "(''readFile'', Request readFile) \<in> set electronAPI" by (simp add: electronAPI_def)
  have r: "readFile (JString (ascii ''/tmp/notes.txt'')) =
     Inr (''read-file'', [JString (ascii ''/tmp/notes.txt'')])"
    by (simp add: readFile_def isValidPath_def ascii_def dotdot_def)
  have m2: "(''onNotification'', Subscription onNotification) \<in> set electronAPI"
    by (simp add: electronAPI_def)
  have ne: "''ping'' \<noteq> ''notification''" by simp
  have sub: "listeners (snd (onNotification (Callback 1) ipc_init)) ''ping'' =
      listeners ipc_init ''ping''"
    by (rule electronAPI_methods_and_channels [THEN conjunct2, THEN conjunct2, rule_format,
          OF conjI [OF m2 ne], THEN conjunct2])
  show ?thesis by (intro conjI names m1 r m2 sub)
qed

section \<open>Event subscriptions\<close>

lemma remove_first_filter:
  "distinct (map fst ls) \<Longrightarrow> remove_first i ls = filter (\<lambda>l. fst l \<noteq> i) ls"
proof (induction ls)
  case Nil
  then show ?case by simp
next
  case (Cons l ls)
  then have "fst l \<notin> fst ` set ls" by simp
  then have "\<forall>x\<in>set ls. fst x \<noteq> fst l" by (metis imageI)
  then have "filter (\<lambda>x. fst x \<noteq> fst l) ls = ls" by simp
  then show ?case using Cons by auto
qed

lemma remove_last_filter:
  "distinct (map fst ls) \<Longrightarrow> rev (remove_first i (rev ls)) = filter (\<lambda>l. fst l \<noteq> i) ls"
proof -
  assume "distinct (map fst ls)"
  then have "distinct (map fst (rev ls))" by (simp add: rev_map [symmetric])
  then have "remove_first i (rev ls) = filter (\<lambda>l. fst l \<noteq> i) (rev ls)"
    by (rule remove_first_filter)
  then show ?thesis by (simp add: rev_filter [symmetric])
qed

lemma wf_ids_lt:
  "closures_wf st \<Longrightarrow> l \<in> set (listeners st ch) \<Longrightarrow> fst l < next_closure st"
  by (simp add: closures_wf_def)

lemma wf_distinct: "closures_wf st \<Longrightarrow> distinct (map fst (listeners st ch))"
  by (simp add: closures_wf_def)

lemma closures_wf_init: "closures_wf ipc_init"
  by (simp add: closures_wf_def ipc_init_def)

lemma closures_wf_subscribe: "closures_wf st \<Longrightarrow> closures_wf (snd (onNotification cb st))"
  by (fastforce simp: closures_wf_def onNotification_def ipc_on_def Let_def)

lemma unsubscribe_listeners:
  "closures_wf st \<Longrightarrow>
   listeners (unsubscribe i st) =
     (listeners st)(''notification'' := filter (\<lambda>l. fst l \<noteq> i) (listeners st ''notification''))"
  by (simp add: unsubscribe_def ipc_removeListener_def closures_wf_def remove_last_filter)

lemma unsubscribe_next: "next_closure (unsubscribe i st) = next_closure st"
  by (simp add: unsubscribe_def ipc_removeListener_def)

lemma closures_wf_unsubscribe: "closures_wf st \<Longrightarrow> closures_wf (unsubscribe i st)"
proof -
  assume wf: "closures_wf st"
  show ?thesis
    unfolding closures_wf_def unsubscribe_listeners [OF wf] unsubscribe_next
    using wf_ids_lt [OF wf] wf_distinct [OF wf] by (auto simp: distinct_map_filter)
qed

lemma reachable_wf: "reachable st \<Longrightarrow> closures_wf st"
  by (induction rule: reachable.induct)
     (simp_all add: closures_wf_init closures_wf_subscribe closures_wf_unsubscribe)

lemma ipc_renderer_eqI:
  "listeners a = listeners b \<Longrightarrow> next_closure a = next_closure b \<Longrightarrow> (a :: ipc_renderer) = b"
  by simp

lemma two_subscribers_listeners:
  "listeners two_subscribers ''notification'' = [(0, Callback 1), (1, Callback 2)]"
  by (simp add: two_subscribers_def onNotification_def ipc_on_def ipc_init_def Let_def)

lemma two_subscribers_reachable: "reachable two_subscribers"
  unfolding two_subscribers_def by (intro reach_subscribe reach_init)

text \<open>
  Claim C9. In every state the preload script can reach, the unsubscribe closure
  returned by \<open>onNotification\<close> removes exactly the listener that this call installed
  (the listeners of other calls and of other channels stay), and calling it again
  changes nothing: unsubscribing twice equals unsubscribing once. The closure is a
  total function of the state, it has no failing branch. Right after the
  subscription, unsubscribing restores the listeners as they were before.
\<close>

theorem unsubscribe_exact_and_idempotent:
  assumes "reachable st"
  shows "unsubscribe u (unsubscribe u st) = unsubscribe u st \<and>
         listeners (unsubscribe u st) ''notification'' =
           filter (\<lambda>l. fst l \<noteq> u) (listeners st ''notification'') \<and>
         (\<forall>ch. ch \<noteq> ''notification'' \<longrightarrow> listeners (unsubscribe u st) ch = listeners st ch) \<and>
         next_closure (unsubscribe u st) = next_closure st \<and>
         distinct (map fst (listeners st ''notification'')) \<and>
         fst (onNotification cb st) \<notin> fst ` set (listeners st ''notification'') \<and>
         listeners (snd (onNotification cb st)) ''notification'' =
           listeners st ''notification'' @ [(fst (onNotification cb st), cb)] \<and>
         listeners (unsubscribe (fst (onNotification cb st)) (snd (onNotification cb st))) =
           listeners st"
proof -
  have wf: "closures_wf st" using assms by (rule reachable_wf)
  have wf1: "closures_wf (unsubscribe u st)" using wf by (rule closures_wf_unsubscribe)
  have wf2: "closures_wf (snd (onNotification cb st))" using wf by (rule closures_wf_subscribe)
  have idem: "unsubscribe u (unsubscribe u st) = unsubscribe u st"
    by (rule ipc_renderer_eqI)
       (simp_all add: unsubscribe_listeners [OF wf1] unsubscribe_listeners [OF wf] unsubscribe_next)
  have fst_on: "fst (onNotification cb st) = next_closure st"
    by (simp add: onNotification_def Let_def)
  have ne: "\<forall>l\<in>set (listeners st ''notification''). fst l \<noteq> fst (onNotification cb st)"
    unfolding fst_on using wf_ids_lt [OF wf] by fastforce
  then have fresh: "fst (onNotification cb st) \<notin> fst ` set (listeners st ''notification'')"
    by auto
  have keep: "filter (\<lambda>l. fst l \<noteq> fst (onNotification cb st)) (listeners st ''notification'')
      = listeners st ''notification''"
    using ne by simp
  have inst: "listeners (snd (onNotification cb st)) ''notification'' =
           listeners st ''notification'' @ [(fst (onNotification cb st), cb)]"
    by (simp add: onNotification_def ipc_on_def Let_def)
  have undo: "listeners (unsubscribe (fst (onNotification cb st)) (snd (onNotification cb st))) =
           listeners st"
    unfolding unsubscribe_listeners [OF wf2] inst
    using keep by (auto simp: onNotification_def ipc_on_def Let_def fun_eq_iff)
  show ?thesis
    using idem fresh inst undo wf_distinct [OF wf]
    by (simp add: unsubscribe_listeners [OF wf] unsubscribe_next)
qed

theorem unsubscribe_exact_and_idempotent_witness:
  "reachable two_subscribers \<and>
   listeners two_subscribers ''notification'' = [(0, Callback 1), (1, Callback 2)] \<and>
   listeners (unsubscribe 0 two_subscribers) ''notification'' = [(1, Callback 2)] \<and>
   unsubscribe 0 (unsubscribe 0 two_subscribers) = unsubscribe 0 two_subscribers"
proof -
  have r: "reachable two_subscribers" by (rule two_subscribers_reachable)
  from unsubscribe_exact_and_idempotent [OF r, of 0 "Callback 3"] r two_subscribers_listeners
  show ?thesis by simp
qed

end
